theory Spec2Isabelle
  imports Main "HOL-Library.Sublist"
begin

section \<open>Data model of jeopardy.js\<close>

text \<open>
  The global \<^verbatim>\<open>categories\<close> is an array of objects \<^verbatim>\<open>{title, clues}\<close>; a clue is
  an object \<^verbatim>\<open>{question, answer}\<close> to which \<^verbatim>\<open>handleClick\<close> later adds the property
  \<^verbatim>\<open>showing\<close>. The property is absent (\<^verbatim>\<open>undefined\<close>) on a fresh clue: that is
  \<open>None\<close> here, and \<open>Some s\<close> is the string \<open>s\<close> stored in it.
\<close>

record clue =
  question :: string
  answer :: string
  showing :: "string option"

record category =
  title :: string
  clues :: "clue list"

text \<open>
  A clue record as the remote service sends it. The program reads \<^verbatim>\<open>question\<close> and
  \<^verbatim>\<open>answer\<close> only; the other fields stand for the rest of the record.
\<close>

record src_clue =
  sc_id :: int
  sc_question :: string
  sc_answer :: string
  sc_value :: "int option"
  sc_airdate :: string
  sc_category_id :: int

text \<open>An entry of the category list the remote service sends.\<close>

record cat_entry =
  ce_id :: int
  ce_title :: string

text \<open>
  The kinds of failure. The program itself throws only \<open>TypeError\<close> (a property read
  on \<^verbatim>\<open>undefined\<close>) and lets a rejected request through as \<open>TransportError\<close>;
  \<open>IndexError\<close> and \<open>InsufficientCategoriesError\<close> are the kinds the specification
  names, which no path of the program produces.
\<close>

datatype error = TransportError | TypeError | IndexError | InsufficientCategoriesError

subsection \<open>The reveal state of a clue\<close>

datatype revealState = Hidden | Question | Answer

text \<open>
  \<^verbatim>\<open>if (clue.showing)\<close> tests truthiness: \<^verbatim>\<open>undefined\<close> and the empty string are
  falsy, every other string is truthy.
\<close>

definition truthy :: "string option \<Rightarrow> bool" where
  "truthy v = (case v of None \<Rightarrow> False | Some s \<Rightarrow> s \<noteq> [])"

text \<open>The state the branches of \<^verbatim>\<open>handleClick\<close> distinguish, read off \<^verbatim>\<open>showing\<close>.\<close>

definition revealState_of :: "clue \<Rightarrow> revealState" where
  "revealState_of c =
     (if truthy (showing c) then (if showing c = Some ''question'' then Question else Answer)
      else Hidden)"

fun rank :: "revealState \<Rightarrow> nat" where
  "rank Hidden = 0"
| "rank Question = 1"
| "rank Answer = 2"

section \<open>The environment: random numbers and the remote service\<close>

text \<open>
  \<^verbatim>\<open>Math.random()\<close> returns a double \<open>u\<close> with \<open>0 \<le> u < 1\<close>, and the program uses it in
  one way only: as \<^verbatim>\<open>Math.floor(u * n)\<close> for a whole number \<open>n\<close> (20000, or the length of
  an array). That is 0 for \<open>n = 0\<close> and a whole number below \<open>n\<close> otherwise, whatever the
  rounding of the product to a double does. The type \<open>draw\<close> is what one call of
  \<^verbatim>\<open>Math.random()\<close> gives the run: the map from \<open>n\<close> to \<^verbatim>\<open>Math.floor(u * n)\<close>. Which
  doubles the host returns, and how often, is the host's matter.
\<close>

typedef draw = "{p :: nat \<Rightarrow> nat. p 0 = 0 \<and> (\<forall>n>0. p n < n)}"
  by (rule exI [of _ "\<lambda>n. 0"]) simp

text \<open>\<^verbatim>\<open>Math.floor(Math.random() * n)\<close>, for the call of \<^verbatim>\<open>Math.random()\<close> that gave \<open>u\<close>.\<close>

definition random_index :: "draw \<Rightarrow> nat \<Rightarrow> nat" where
  "random_index u n = Rep_draw u n"

text \<open>
  The environment of one run: \<open>random k\<close> is the value of the \<open>k\<close>-th call of
  \<^verbatim>\<open>Math.random()\<close> (counted from 0); \<open>get_categories count offset\<close> and
  \<open>get_clues catId\<close> are the \<^verbatim>\<open>data\<close> of the responses to the two \<^verbatim>\<open>axios.get\<close>
  requests, \<open>None\<close> when the request fails (the promise is rejected).
\<close>

record env =
  random :: "nat \<Rightarrow> draw"
  get_categories :: "nat \<Rightarrow> nat \<Rightarrow> cat_entry list option"
  get_clues :: "int \<Rightarrow> src_clue list option"

text \<open>\<^verbatim>\<open>await axios.get(...)\<close>: a rejected promise is thrown as \<open>TransportError\<close>.\<close>

definition await :: "'a option \<Rightarrow> error + 'a" where
  "await response = (case response of None \<Rightarrow> Inl TransportError | Some data \<Rightarrow> Inr data)"

section \<open>getCategoryIds and getCategory\<close>

text \<open>
  \<^verbatim>\<open>getCategoryIds(numCategories)\<close>: one call of \<^verbatim>\<open>Math.random()\<close>, then the request.
  The last argument and the second component of the result count the calls of
  \<^verbatim>\<open>Math.random()\<close> made so far.
\<close>

definition getCategoryIds :: "env \<Rightarrow> nat \<Rightarrow> nat \<Rightarrow> (error + cat_entry list) \<times> nat" where
  "getCategoryIds e numCategories k =
     (let rnd = random_index (random e k) 20000
      in (await (get_categories e numCategories rnd), Suc k))"

text \<open>
  \<^verbatim>\<open>data.splice(i, 1)\<close> for \<open>i \<ge> 0\<close>: the element at index \<open>i\<close> is removed; nothing is
  removed when \<open>i\<close> is not below the length.
\<close>

definition splice1 :: "nat \<Rightarrow> 'a list \<Rightarrow> 'a list" where
  "splice1 i xs = take i xs @ drop (Suc i) xs"

text \<open>
  The loop \<^verbatim>\<open>while (category.data.length > 5) { ... splice(random, 1) }\<close>. Each
  iteration calls \<^verbatim>\<open>Math.random()\<close> once.
\<close>

function reduce_clues :: "(nat \<Rightarrow> draw) \<Rightarrow> nat \<Rightarrow> 'a list \<Rightarrow> 'a list \<times> nat" where
  "reduce_clues rnd k data =
     (if length data > 5
      then reduce_clues rnd (Suc k) (splice1 (random_index (rnd k) (length data)) data)
      else (data, k))"
  by pat_completeness auto
termination
proof (relation "measure (\<lambda>(rnd, k, data). length data)")
  show "wf (measure (\<lambda>(rnd :: nat \<Rightarrow> draw, k :: nat, data :: 'a list). length data))"
    by simp
next
  fix rnd :: "nat \<Rightarrow> draw" and k :: nat and data :: "'a list"
  assume more: "5 < length data"
  then have "0 < length data"
    by arith
  then have "random_index (rnd k) (length data) < length data"
    using Rep_draw [of "rnd k"] unfolding random_index_def
    by simp
  then have "length (splice1 (random_index (rnd k) (length data)) data) < length data"
    by (simp add: splice1_def)
  then show "((rnd, Suc k, splice1 (random_index (rnd k) (length data)) data), (rnd, k, data))
               \<in> measure (\<lambda>(rnd, k, data). length data)"
    by simp
qed

declare reduce_clues.simps [simp del]

text \<open>One iteration of that loop, on the array and the count of calls.\<close>

definition loop_body :: "(nat \<Rightarrow> draw) \<Rightarrow> 'a list \<times> nat \<Rightarrow> 'a list \<times> nat" where
  "loop_body rnd p =
     (case p of (data, k) \<Rightarrow> (splice1 (random_index (rnd k) (length data)) data, Suc k))"

text \<open>
  The loop \<^verbatim>\<open>for (let i = 0; i < 5; i++) clueArray.push({question: ..., answer: ...})\<close>,
  run over the indices it visits. Reading \<^verbatim>\<open>.question\<close> of \<^verbatim>\<open>category.data[i]\<close> throws
  a \<open>TypeError\<close> when \<open>i\<close> is out of range. The pushed object has no \<^verbatim>\<open>showing\<close>.
\<close>

definition project :: "src_clue \<Rightarrow> clue" where
  "project d = \<lparr>question = sc_question d, answer = sc_answer d, showing = None\<rparr>"

fun push_clues :: "src_clue list \<Rightarrow> nat list \<Rightarrow> clue list \<Rightarrow> error + clue list" where
  "push_clues data [] clueArray = Inr clueArray"
| "push_clues data (i # is) clueArray =
     (if i < length data then push_clues data is (clueArray @ [project (data ! i)])
      else Inl TypeError)"

text \<open>
  \<^verbatim>\<open>getCategory(catTitle, catId)\<close>. The result \<^verbatim>\<open>false\<close> is \<open>None\<close>, a prepared category
  is \<open>Some\<close>; \<open>Inl\<close> is a rejected promise.
\<close>

definition getCategory ::
  "env \<Rightarrow> string \<Rightarrow> int \<Rightarrow> nat \<Rightarrow> (error + category option) \<times> nat" where
  "getCategory e catTitle catId k =
     (case await (get_clues e catId) of
        Inl err \<Rightarrow> (Inl err, k)
      | Inr data \<Rightarrow>
          if length data < 5 then (Inr None, k)
          else (case reduce_clues (random e) k data of
                  (data', k') \<Rightarrow>
                    (case push_clues data' [0, 1, 2, 3, 4] [] of
                       Inl err \<Rightarrow> (Inl err, k')
                     | Inr clueArray \<Rightarrow>
                         (Inr (Some \<lparr>title = catTitle, clues = clueArray\<rparr>), k'))))"

section \<open>The page: table cells and the loading view\<close>

text \<open>
  A \<^verbatim>\<open>td\<close> element as the program uses it: its \<^verbatim>\<open>id\<close> attribute, its content and the
  three inline style properties \<^verbatim>\<open>handleClick\<close> writes (\<^verbatim>\<open>fontSize\<close>, \<^verbatim>\<open>color\<close>,
  \<^verbatim>\<open>-webkit-text-stroke\<close>); an inline property not yet written is the empty string.
\<close>

record target =
  target_id :: string
  innerHTML :: string
  fontSize :: string
  color :: string
  webkit_text_stroke :: string

text \<open>
  The state the functions share: the global \<^verbatim>\<open>categories\<close>, the number of calls of
  \<^verbatim>\<open>Math.random()\<close> made so far, the rows of \<^verbatim>\<open>thead\<close> (the texts of their cells) and of
  \<^verbatim>\<open>tbody\<close>, whether \<^verbatim>\<open>#jeopardy\<close> and \<^verbatim>\<open>#spin-container\<close> are shown, and the text of
  \<^verbatim>\<open>#start\<close>.
\<close>

record state =
  categories :: "category list"
  random_calls :: nat
  thead :: "string list list"
  tbody :: "target list list"
  jeopardy_shown :: bool
  spinner_shown :: bool
  start_text :: string

text \<open>A number inside a template literal: its decimal digits.\<close>

definition digit_char :: "nat \<Rightarrow> char" where
  "digit_char d = char_of (48 + d)"

function string_of_nat :: "nat \<Rightarrow> string" where
  "string_of_nat n =
     (if n < 10 then [digit_char n] else string_of_nat (n div 10) @ [digit_char (n mod 10)])"
  by pat_completeness auto
termination
  by (relation "measure (\<lambda>n. n)") auto

declare string_of_nat.simps [simp del]

text \<open>
  The cell \<^verbatim>\<open>fillTable\<close> creates in column \<open>n\<close> of row \<open>i\<close>: id \<^verbatim>\<open>`${n}-${i}`\<close>, text
  \<^verbatim>\<open>`$${i+1}00`\<close>.
\<close>

definition cell_id :: "nat \<Rightarrow> nat \<Rightarrow> string" where
  "cell_id n i = string_of_nat n @ ''-'' @ string_of_nat i"

definition new_cell :: "nat \<Rightarrow> nat \<Rightarrow> target" where
  "new_cell n i =
     \<lparr>target_id = cell_id n i, innerHTML = ''$'' @ string_of_nat (i + 1) @ ''00'',
      fontSize = [], color = [], webkit_text_stroke = []\<rparr>"

text \<open>
  \<^verbatim>\<open>fillTable()\<close>. The header loop reads \<^verbatim>\<open>categories[i].title\<close> for \<open>i < 6\<close>: with
  fewer than six categories that read throws a \<open>TypeError\<close> before anything is appended;
  otherwise one header row and five rows of six cells are appended.
\<close>

definition fillTable :: "state \<Rightarrow> error option \<times> state" where
  "fillTable s =
     (if length (categories s) < 6 then (Some TypeError, s)
      else (None,
            s\<lparr>thead := thead s @ [map (\<lambda>i. title (categories s ! i)) [0..<6]],
              tbody := tbody s @ map (\<lambda>i. map (\<lambda>n. new_cell n i) [0..<6]) [0..<5]\<rparr>))"

text \<open>\<^verbatim>\<open>showLoadingView()\<close> and \<^verbatim>\<open>hideLoadingView()\<close>\<close>

definition showLoadingView :: "state \<Rightarrow> state" where
  "showLoadingView s =
     s\<lparr>thead := [], tbody := [], categories := [], jeopardy_shown := False,
       spinner_shown := True, start_text := ''Loading''\<rparr>"

definition hideLoadingView :: "state \<Rightarrow> state" where
  "hideLoadingView s =
     s\<lparr>spinner_shown := False, jeopardy_shown := True, start_text := ''New Game''\<rparr>"

section \<open>setupAndStart and the start button\<close>

text \<open>
  One run of the start handler is modelled from its beginning to its end: no second click
  on the start button arrives while the requests of a run are pending.
\<close>

text \<open>
  The loop \<^verbatim>\<open>while (categories.length < 6) { ...; i++ }\<close> of \<^verbatim>\<open>setupAndStart\<close>. The
  condition does not look at \<open>i\<close>: once \<open>i\<close> is past the end of \<^verbatim>\<open>categoryResponse\<close>,
  \<^verbatim>\<open>categoryResponse[i]\<close> is \<^verbatim>\<open>undefined\<close> and reading its \<^verbatim>\<open>title\<close> throws a \<open>TypeError\<close>.
  The first component of the result is the error thrown, if any; the second is the state
  at that moment.
\<close>

function setup_loop :: "env \<Rightarrow> cat_entry list \<Rightarrow> nat \<Rightarrow> state \<Rightarrow> error option \<times> state" where
  "setup_loop e categoryResponse i s =
     (if length (categories s) < 6 then
        (if i < length categoryResponse then
           (case getCategory e (ce_title (categoryResponse ! i)) (ce_id (categoryResponse ! i))
                   (random_calls s) of
              (Inl err, k) \<Rightarrow> (Some err, s\<lparr>random_calls := k\<rparr>)
            | (Inr newCategory, k) \<Rightarrow>
                setup_loop e categoryResponse (Suc i)
                  (case newCategory of
                     None \<Rightarrow> s\<lparr>random_calls := k\<rparr>
                   | Some c \<Rightarrow> s\<lparr>categories := categories s @ [c], random_calls := k\<rparr>))
         else (Some TypeError, s))
      else (None, s))"
  by pat_completeness auto
termination
  by (relation "measure (\<lambda>(e, categoryResponse, i, s). length categoryResponse - i)") auto

declare setup_loop.simps [simp del]

text \<open>
  \<^verbatim>\<open>setupAndStart()\<close>. \<^verbatim>\<open>fillTable()\<close> is called without \<^verbatim>\<open>await\<close>, so an error thrown
  inside it does not reach \<^verbatim>\<open>setupAndStart\<close>.
\<close>

definition setupAndStart :: "env \<Rightarrow> state \<Rightarrow> error option \<times> state" where
  "setupAndStart e s =
     (case getCategoryIds e 18 (random_calls s) of
        (Inl err, k) \<Rightarrow> (Some err, s\<lparr>random_calls := k\<rparr>)
      | (Inr categoryResponse, k) \<Rightarrow>
          (case setup_loop e categoryResponse 0 (s\<lparr>random_calls := k\<rparr>) of
             (Some err, s') \<Rightarrow> (Some err, s')
           | (None, s') \<Rightarrow> (None, snd (fillTable s'))))"

text \<open>
  The click handler of \<^verbatim>\<open>#start\<close>. Its test \<^verbatim>\<open>e.target = $('#start')\<close> is an assignment
  of an object, which is truthy, so the body always runs.
\<close>

definition start_click :: "env \<Rightarrow> state \<Rightarrow> error option \<times> state" where
  "start_click e s =
     (case setupAndStart e (showLoadingView s) of
        (Some err, s') \<Rightarrow> (Some err, s')
      | (None, s') \<Rightarrow> (None, hideLoadingView s'))"

section \<open>handleClick\<close>

text \<open>
  \<^verbatim>\<open>categories[cat]\<close> and \<^verbatim>\<open>clues[clu]\<close> index an array with a string. A string that is
  the canonical decimal form of a number (no sign, no leading zero) is an array index;
  indexing past the end gives \<^verbatim>\<open>undefined\<close>. (A canonical number from \<open>2^32 - 1\<close> on is
  an ordinary property name, absent from these arrays: \<^verbatim>\<open>undefined\<close> as well.)
\<close>

definition is_digit :: "char \<Rightarrow> bool" where
  "is_digit c = (48 \<le> (of_char c :: nat) \<and> (of_char c :: nat) \<le> 57)"

definition digit_val :: "char \<Rightarrow> nat" where
  "digit_val c = of_char c - 48"

definition array_index :: "string \<Rightarrow> nat option" where
  "array_index key =
     (if key \<noteq> [] \<and> list_all is_digit key \<and> (key = ''0'' \<or> hd key \<noteq> CHR ''0'')
      then Some (foldl (\<lambda>a c. 10 * a + digit_val c) 0 key)
      else None)"

text \<open>
  Any other string is looked up as a property name. Besides its indices an array has the
  property \<^verbatim>\<open>length\<close> and inherits the methods of \<^verbatim>\<open>Array.prototype\<close> and
  \<^verbatim>\<open>Object.prototype\<close>; these are their names (ECMAScript 2023). A name not among them
  is \<^verbatim>\<open>undefined\<close>. What one of them resolves to, and what \<^verbatim>\<open>handleClick\<close> then does to
  it, depends on the host and on how the page loads the script, and is left open:
  \<open>HostProperty\<close>.
\<close>

definition host_property_names :: "string list" where
  "host_property_names =
     [''length'', ''constructor'', ''at'', ''concat'', ''copyWithin'', ''fill'', ''find'',
      ''findIndex'', ''findLast'', ''findLastIndex'', ''lastIndexOf'', ''pop'', ''push'',
      ''reverse'', ''shift'', ''unshift'', ''slice'', ''sort'', ''splice'', ''includes'',
      ''indexOf'', ''join'', ''keys'', ''entries'', ''values'', ''forEach'', ''filter'',
      ''flat'', ''flatMap'', ''map'', ''every'', ''some'', ''reduce'', ''reduceRight'',
      ''toLocaleString'', ''toString'', ''toReversed'', ''toSorted'', ''toSpliced'', ''with'',
      ''hasOwnProperty'', ''isPrototypeOf'', ''propertyIsEnumerable'', ''valueOf'',
      ''__defineGetter__'', ''__defineSetter__'', ''__lookupGetter__'', ''__lookupSetter__'',
      ''__proto__'']"

datatype 'a lookup = Undefined | Element nat 'a | HostProperty

definition js_get :: "'a list \<Rightarrow> string \<Rightarrow> 'a lookup" where
  "js_get xs key =
     (case array_index key of
        Some n \<Rightarrow> (if n < length xs then Element n (xs ! n) else Undefined)
      | None \<Rightarrow> (if key \<in> set host_property_names then HostProperty else Undefined))"

text \<open>
  \<^verbatim>\<open>clue.answer.replace("\\", "")\<close>: the pattern is a string (one backslash), so the
  first occurrence only is replaced, by the empty string.
\<close>

definition backslash :: char where
  "backslash = CHR 0x5C"

definition replace_backslash :: "string \<Rightarrow> string" where
  "replace_backslash s = remove1 backslash s"

text \<open>
  The outcome of \<^verbatim>\<open>handleClick\<close>: it returns, with the categories and the target as it
  leaves them, or it throws; both throws of the function happen on the reads of line 103
  and 104, before anything is written. \<open>HostDependent\<close>: the identifier names a property
  of the array other than an index (see \<open>js_get\<close>).
\<close>

datatype 'a outcome = Returns 'a | Throws error | HostDependent

definition set_clue :: "category list \<Rightarrow> nat \<Rightarrow> nat \<Rightarrow> clue \<Rightarrow> category list" where
  "set_clue cats i j c = cats[i := (cats ! i)\<lparr>clues := (clues (cats ! i))[j := c]\<rparr>]"

definition handleClick :: "category list \<Rightarrow> target \<Rightarrow> (category list \<times> target) outcome" where
  "handleClick cats tgt =
     (let cat = take 1 (target_id tgt);
          clu = drop 2 (target_id tgt)
      in case js_get cats cat of
           Undefined \<Rightarrow> Throws TypeError
         | HostProperty \<Rightarrow> HostDependent
         | Element i c \<Rightarrow>
             (case js_get (clues c) clu of
                Undefined \<Rightarrow> Throws TypeError
              | HostProperty \<Rightarrow> HostDependent
              | Element j clue \<Rightarrow>
                  if truthy (showing clue) then
                    (if showing clue = Some ''question'' then
                       Returns (set_clue cats i j (clue\<lparr>showing := Some ''answer''\<rparr>),
                                tgt\<lparr>innerHTML := replace_backslash (answer clue),
                                    fontSize := ''1.5vh''\<rparr>)
                     else Returns (cats, tgt))
                  else
                    Returns (set_clue cats i j (clue\<lparr>showing := Some ''question''\<rparr>),
                             tgt\<lparr>innerHTML := question clue, fontSize := ''1vh'',
                                 color := ''white'', webkit_text_stroke := ''0''\<rparr>)))"

text \<open>
  \<open>n\<close> clicks in a row on the same cell: each call of \<^verbatim>\<open>handleClick\<close> gets the categories
  and the cell as the call before left them; a throw ends the row.
\<close>

fun clicks :: "nat \<Rightarrow> category list \<times> target \<Rightarrow> (category list \<times> target) outcome" where
  "clicks 0 st = Returns st"
| "clicks (Suc n) st =
     (case clicks n st of
        Returns (cats, tgt) \<Rightarrow> handleClick cats tgt
      | Throws err \<Rightarrow> Throws err
      | HostDependent \<Rightarrow> HostDependent)"

section \<open>Sample data\<close>

text \<open>
  A source clue numbered \<open>n\<close>, a source where every category has the clues numbered
  \<open>0, ..., n - 1\<close> and every call of \<^verbatim>\<open>Math.random()\<close> gives 0.5 (then
  \<^verbatim>\<open>Math.floor(0.5 * n)\<close> is \<open>n div 2\<close>), and a source whose requests all fail.
\<close>

definition sample_clue :: "nat \<Rightarrow> src_clue" where
  "sample_clue n =
     \<lparr>sc_id = int n, sc_question = replicate n (CHR ''q''), sc_answer = replicate n (CHR ''a''),
      sc_value = Some 100, sc_airdate = ''1999'', sc_category_id = 7\<rparr>"

definition half :: draw where
  "half = Abs_draw (\<lambda>n. n div 2)"

definition sample_env :: "nat \<Rightarrow> env" where
  "sample_env n =
     \<lparr>random = (\<lambda>k. half),
      get_categories = (\<lambda>count offset. Some (map (\<lambda>i. \<lparr>ce_id = int i, ce_title = ''T''\<rparr>) [0..<count])),
      get_clues = (\<lambda>catId. Some (map sample_clue [0..<n]))\<rparr>"



text \<open>
  A state of the page before any game, and one during a game, with a board of six
  categories of five clues on it.
\<close>

definition page_loaded :: state where
  "page_loaded =
     \<lparr>categories = [], random_calls = 0, thead = [], tbody = [], jeopardy_shown = True,
      spinner_shown = False, start_text = ''Start''\<rparr>"

definition sample_board :: "category list" where
  "sample_board =
     replicate 6 \<lparr>title = ''T'', clues = map project (map sample_clue [0..<5])\<rparr>"


text \<open>
  A clue whose answer holds two backslashes, with its question showing; the sample board
  with that clue at category 0, clue 0; and the cell of that clue as the first click left
  it.
\<close>

definition escaped_clue :: clue where
  "escaped_clue =
     \<lparr>question = ''q'', answer = ''a'' @ [backslash] @ ''b'' @ [backslash] @ ''c'',
      showing = Some ''question''\<rparr>"

definition escaped_board :: "category list" where
  "escaped_board = set_clue sample_board 0 0 escaped_clue"

definition clicked_cell :: target where
  "clicked_cell =
     (new_cell 0 0)\<lparr>innerHTML := ''q'', fontSize := ''1vh'', color := ''white'',
                   webkit_text_stroke := ''0''\<rparr>"

text \<open>The sample board with the clue \<^verbatim>\<open>{question: "2+2", answer: "4"}\<close> at category 0, clue 0.\<close>

definition scenario_clue :: clue where
  "scenario_clue = \<lparr>question = ''2+2'', answer = ''4'', showing = None\<rparr>"

definition scenario_board :: "category list" where
  "scenario_board = set_clue sample_board 0 0 scenario_clue"

text \<open>
  A clue not yet clicked whose answer holds one backslash, and the sample board with that
  clue at category 0, clue 0.
\<close>

definition slash_clue :: clue where
  "slash_clue = \<lparr>question = ''q'', answer = [CHR ''a'', CHR 0x5C, CHR ''b''], showing = None\<rparr>"

definition slash_board :: "category list" where
  "slash_board = set_clue sample_board 0 0 slash_clue"

text \<open>The cell of the clue \<^verbatim>\<open>2+2\<close> as the first and as the second click leave it.\<close>

definition question_cell :: target where
  "question_cell =
     (new_cell 0 0)\<lparr>innerHTML := ''2+2'', fontSize := ''1vh'', color := ''white'',
                   webkit_text_stroke := ''0''\<rparr>"

definition answer_cell :: target where
  "answer_cell = question_cell\<lparr>innerHTML := ''4'', fontSize := ''1.5vh''\<rparr>"

section \<open>Facts about getCategory\<close>

lemma random_index_less: "0 < n \<Longrightarrow> random_index u n < n"
  using Rep_draw [of u] unfolding random_index_def
  by simp

lemma length_splice1: "i < length xs \<Longrightarrow> length (splice1 i xs) = length xs - 1"
  by (simp add: splice1_def)

lemma subseq_splice1: "subseq (splice1 i xs) xs"
proof -
  have "subseq (drop (Suc i) xs) (drop i xs)"
  proof (cases "i < length xs")
    case True
    then have "drop i xs = xs ! i # drop (Suc i) xs"
      by (simp add: Cons_nth_drop_Suc)
    moreover have "subseq (drop (Suc i) xs) (xs ! i # drop (Suc i) xs)"
      by (rule list_emb_Cons) simp
    ultimately show ?thesis by simp
  next
    case False
    then show ?thesis by simp
  qed
  then have "subseq (take i xs @ drop (Suc i) xs) (take i xs @ drop i xs)"
    by (simp only: subseq_append')
  then show ?thesis by (simp add: splice1_def)
qed

lemma map_splice1: "map f (splice1 i xs) = splice1 i (map f xs)"
  by (simp add: splice1_def take_map drop_map)

lemma reduce_clues_short: "length data \<le> 5 \<Longrightarrow> reduce_clues rnd k data = (data, k)"
  by (simp add: reduce_clues.simps)

lemma reduce_clues_long:
  "5 < length data \<Longrightarrow>
   reduce_clues rnd k data =
   reduce_clues rnd (Suc k) (splice1 (random_index (rnd k) (length data)) data)"
  by (subst reduce_clues.simps) simp

lemma length_reduce_clues:
  "5 \<le> length data \<Longrightarrow> length (fst (reduce_clues rnd k data)) = 5"
proof (induction rnd k data rule: reduce_clues.induct)
  case (1 rnd k data)
  show ?case
  proof (cases "5 < length data")
    case True
    then have "random_index (rnd k) (length data) < length data"
      by (intro random_index_less) arith
    then have "5 \<le> length (splice1 (random_index (rnd k) (length data)) data)"
      using True by (simp add: length_splice1)
    with "1.IH" True show ?thesis
      by (simp add: reduce_clues_long)
  next
    case False
    with "1.prems" show ?thesis
      by (simp add: reduce_clues_short)
  qed
qed

lemma calls_reduce_clues:
  "snd (reduce_clues rnd k data) = k + (length data - 5)"
proof (induction rnd k data rule: reduce_clues.induct)
  case (1 rnd k data)
  show ?case
  proof (cases "5 < length data")
    case True
    then have "random_index (rnd k) (length data) < length data"
      by (intro random_index_less) arith
    then have "length (splice1 (random_index (rnd k) (length data)) data) = length data - 1"
      by (simp add: length_splice1)
    with "1.IH" True show ?thesis
      by (simp add: reduce_clues_long)
  next
    case False
    then show ?thesis
      by (simp add: reduce_clues_short)
  qed
qed

lemma subseq_reduce_clues: "subseq (fst (reduce_clues rnd k data)) data"
proof (induction rnd k data rule: reduce_clues.induct)
  case (1 rnd k data)
  show ?case
  proof (cases "5 < length data")
    case True
    with "1.IH" have "subseq (fst (reduce_clues rnd k data))
                        (splice1 (random_index (rnd k) (length data)) data)"
      by (simp add: reduce_clues_long)
    then show ?thesis
      using subseq_splice1 subseq_order.order_trans by blast
  next
    case False
    then show ?thesis
      by (simp add: reduce_clues_short)
  qed
qed

lemma map_reduce_clues:
  "reduce_clues rnd k (map f data) = (map f (fst (reduce_clues rnd k data)), snd (reduce_clues rnd k data))"
proof (induction rnd k data rule: reduce_clues.induct)
  case (1 rnd k data)
  show ?case
  proof (cases "5 < length data")
    case True
    with "1.IH" show ?thesis
      by (simp add: reduce_clues_long map_splice1)
  next
    case False
    then show ?thesis
      by (simp add: reduce_clues_short)
  qed
qed

lemma push_clues_in_range:
  "\<forall>i\<in>set is. i < length data \<Longrightarrow>
   push_clues data is acc = Inr (acc @ map (\<lambda>i. project (data ! i)) is)"
  by (induction "is" arbitrary: acc) simp_all

lemma push_clues_five:
  assumes "length data = 5"
  shows "push_clues data [0, 1, 2, 3, 4] [] = Inr (map project data)"
proof -
  have idx: "[0, 1, 2, 3, 4] = [0..<length data]"
    using assms by (simp add: upt_rec)
  have "push_clues data [0..<length data] [] = Inr ([] @ map (\<lambda>i. project (data ! i)) [0..<length data])"
    by (rule push_clues_in_range) simp
  also have "map (\<lambda>i. project (data ! i)) [0..<length data] = map project (map (\<lambda>i. data ! i) [0..<length data])"
    by simp
  also have "map (\<lambda>i. data ! i) [0..<length data] = data"
    by (rule map_nth)
  finally show ?thesis
    using idx by simp
qed

lemma getCategory_rejected:
  "get_clues e catId = Some data \<Longrightarrow> length data < 5 \<Longrightarrow>
   getCategory e catTitle catId k = (Inr None, k)"
  by (simp add: getCategory_def await_def)

lemma getCategory_accepted:
  assumes "get_clues e catId = Some data" and "5 \<le> length data"
  shows "getCategory e catTitle catId k =
           (Inr (Some \<lparr>title = catTitle,
                        clues = map project (fst (reduce_clues (random e) k data))\<rparr>),
            k + (length data - 5))"
proof -
  obtain data' k' where r: "reduce_clues (random e) k data = (data', k')"
    by (cases "reduce_clues (random e) k data")
  have "length data' = 5"
    using length_reduce_clues [OF assms(2), of "random e" k] r by simp
  then have "push_clues data' [0, 1, 2, 3, 4] [] = Inr (map project data')"
    by (rule push_clues_five)
  moreover have "k' = k + (length data - 5)"
    using calls_reduce_clues [of "random e" k data] r by simp
  ultimately show ?thesis
    using assms r by (simp add: getCategory_def await_def)
qed


lemma loop_body_length:
  assumes "0 < length data"
  shows "length (fst (loop_body rnd (data, k))) = length data - 1"
proof -
  have "random_index (rnd k) (length data) < length data"
    using assms by (rule random_index_less)
  then show ?thesis
    by (simp add: loop_body_def length_splice1)
qed

lemma reduce_clues_funpow:
  "reduce_clues rnd k data = (loop_body rnd ^^ (length data - 5)) (data, k)"
proof (induction rnd k data rule: reduce_clues.induct)
  case (1 rnd k data)
  show ?case
  proof (cases "5 < length data")
    case True
    let ?d = "splice1 (random_index (rnd k) (length data)) data"
    have "random_index (rnd k) (length data) < length data"
      using True by (intro random_index_less) arith
    then have len: "length ?d = length data - 1"
      by (rule length_splice1)
    have "reduce_clues rnd k data = (loop_body rnd ^^ (length ?d - 5)) (?d, Suc k)"
      using "1.IH" True by (simp add: reduce_clues_long)
    also have "(?d, Suc k) = loop_body rnd (data, k)"
      by (simp add: loop_body_def)
    also have "(loop_body rnd ^^ (length ?d - 5)) (loop_body rnd (data, k))
                 = (loop_body rnd ^^ Suc (length ?d - 5)) (data, k)"
      by (simp only: funpow_Suc_right o_apply)
    also have "Suc (length ?d - 5) = length data - 5"
      using True len by arith
    finally show ?thesis .
  next
    case False
    then show ?thesis
      by (simp add: reduce_clues_short)
  qed
qed

lemma funpow_loop_body_length:
  "m \<le> length data - 5 \<Longrightarrow> length (fst ((loop_body rnd ^^ m) (data, k))) = length data - m"
proof (induction m)
  case 0
  show ?case by simp
next
  case (Suc m)
  obtain d j where st: "(loop_body rnd ^^ m) (data, k) = (d, j)"
    by (cases "(loop_body rnd ^^ m) (data, k)")
  from Suc have len: "length d = length data - m"
    using st by simp
  with Suc.prems have "0 < length d"
    by arith
  then have "length (fst (loop_body rnd (d, j))) = length d - 1"
    by (rule loop_body_length)
  with len st show ?case
    by simp
qed

lemma half_rep: "Rep_draw half = (\<lambda>n. n div 2)"
  by (simp add: half_def Abs_draw_inverse)

lemma map_project_cong:
  assumes "map sc_question xs = map sc_question ys" and "map sc_answer xs = map sc_answer ys"
  shows "map project xs = map project ys"
proof -
  have "map project zs =
          map (\<lambda>(q, a). \<lparr>question = q, answer = a, showing = None\<rparr>)
            (zip (map sc_question zs) (map sc_answer zs))" for zs
    by (induction zs) (simp_all add: project_def)
  with assms show ?thesis
    by simp
qed

lemma random_index_half: "random_index half n = n div 2"
  by (simp add: random_index_def half_rep)






section \<open>Properties of getCategory\<close>

text \<open>
  C3. When the source answers with a list of clues, \<^verbatim>\<open>getCategory\<close> returns \<^verbatim>\<open>false\<close>
  (here \<open>None\<close>) if and only if the list has fewer than 5 clues; otherwise it returns a
  category with the given title and exactly 5 clues. In neither case does it throw.
\<close>

theorem getCategory_rejects_iff_fewer_than_five:
  assumes "get_clues e catId = Some data"
  shows "(fst (getCategory e catTitle catId k) = Inr None \<longleftrightarrow> length data < 5)
       \<and> (5 \<le> length data \<longrightarrow>
            (\<exists>c. fst (getCategory e catTitle catId k) = Inr (Some c)
                 \<and> title c = catTitle \<and> length (clues c) = 5))
       \<and> (\<forall>err. fst (getCategory e catTitle catId k) \<noteq> Inl err)"
proof (cases "length data < 5")
  case True
  with assms show ?thesis
    by (simp add: getCategory_rejected)
next
  case False
  then have five: "5 \<le> length data"
    by simp
  have "length (map project (fst (reduce_clues (random e) k data))) = 5"
    using length_reduce_clues [OF five] by simp
  with False five show ?thesis
    by (simp add: getCategory_accepted [OF assms five])
qed

theorem getCategory_rejects_iff_fewer_than_five_witness:
  "get_clues (sample_env 3) 7 = Some (map sample_clue [0..<3])
   \<and> fst (getCategory (sample_env 3) ''Math'' 7 0) = Inr None
   \<and> length (map sample_clue [0..<3]) < 5"
  using getCategory_rejects_iff_fewer_than_five
          [of "sample_env 3" 7 "map sample_clue [0..<3]" "''Math''" 0]
  by (simp add: sample_env_def)



text \<open>
  C8. Every clue of a category returned by \<^verbatim>\<open>getCategory\<close> is the object
  \<^verbatim>\<open>{question, answer}\<close> of one source clue, with no \<^verbatim>\<open>showing\<close> property (the state
  Hidden); the other fields of the source records have no influence on the result: two
  sources that agree on the questions and the answers give the same result.
\<close>

theorem getCategory_projects_question_and_answer:
  assumes "get_clues e catId = Some data"
    and "fst (getCategory e catTitle catId k) = Inr (Some c)"
  shows "(\<forall>x\<in>set (clues c).
            showing x = None \<and> revealState_of x = Hidden
            \<and> (\<exists>d\<in>set data.
                  x = \<lparr>question = sc_question d, answer = sc_answer d, showing = None\<rparr>))
       \<and> (\<forall>e' data'.
            random e' = random e \<and> get_clues e' catId = Some data'
            \<and> map sc_question data' = map sc_question data
            \<and> map sc_answer data' = map sc_answer data
            \<longrightarrow> getCategory e' catTitle catId k = getCategory e catTitle catId k)"
proof -
  have five: "5 \<le> length data"
  proof (rule ccontr)
    assume "\<not> 5 \<le> length data"
    then have "length data < 5" by simp
    from getCategory_rejected [OF assms(1) this] assms(2) show False
      by simp
  qed
  let ?kept = "fst (reduce_clues (random e) k data)"
  have res: "getCategory e catTitle catId k =
               (Inr (Some \<lparr>title = catTitle, clues = map project ?kept\<rparr>), k + (length data - 5))"
    by (rule getCategory_accepted [OF assms(1) five])
  with assms(2) have c: "clues c = map project ?kept"
    by auto
  have fields: "\<forall>x\<in>set (clues c).
            showing x = None \<and> revealState_of x = Hidden
            \<and> (\<exists>d\<in>set data.
                  x = \<lparr>question = sc_question d, answer = sc_answer d, showing = None\<rparr>)"
  proof
    fix x
    assume "x \<in> set (clues c)"
    then obtain d where d: "d \<in> set ?kept" and x: "x = project d"
      using c by auto
    from list_emb_set [OF subseq_reduce_clues d] have "d \<in> set data"
      by auto
    with x show "showing x = None \<and> revealState_of x = Hidden
            \<and> (\<exists>d\<in>set data.
                  x = \<lparr>question = sc_question d, answer = sc_answer d, showing = None\<rparr>)"
      by (auto simp: project_def revealState_of_def truthy_def)
  qed
  have same: "getCategory e' catTitle catId k = getCategory e catTitle catId k"
    if rnd: "random e' = random e" and src: "get_clues e' catId = Some data'"
      and q: "map sc_question data' = map sc_question data"
      and a: "map sc_answer data' = map sc_answer data" for e' data'
  proof -
    have len: "length data' = length data"
      using q map_eq_imp_length_eq by blast
    have proj: "map project data' = map project data"
      using q a by (rule map_project_cong)
    have "map project (fst (reduce_clues (random e) k data'))
            = fst (reduce_clues (random e) k (map project data'))"
      by (simp add: map_reduce_clues)
    also have "\<dots> = map project ?kept"
      by (simp add: proj map_reduce_clues)
    finally have kept: "map project (fst (reduce_clues (random e') k data')) = map project ?kept"
      using rnd by simp
    have "5 \<le> length data'"
      using five len by simp
    from getCategory_accepted [OF src this, of catTitle k] kept len res show ?thesis
      by simp
  qed
  from fields same show ?thesis
    by blast
qed

theorem getCategory_projects_question_and_answer_witness:
  "get_clues (sample_env 5) 7 = Some (map sample_clue [0..<5])
   \<and> fst (getCategory (sample_env 5) ''Math'' 7 0)
       = Inr (Some \<lparr>title = ''Math'', clues = map project (map sample_clue [0..<5])\<rparr>)
   \<and> showing (clues \<lparr>title = ''Math'', clues = map project (map sample_clue [0..<5])\<rparr> ! 4)
       = None
   \<and> revealState_of
         (clues \<lparr>title = ''Math'', clues = map project (map sample_clue [0..<5])\<rparr> ! 4)
       = Hidden"
proof -
  have src: "get_clues (sample_env 5) 7 = Some (map sample_clue [0..<5])"
    by (simp add: sample_env_def)
  have five: "5 \<le> length (map sample_clue [0..<5])"
    by simp
  have short: "reduce_clues (random (sample_env 5)) 0 (map sample_clue [0..<5])
                 = (map sample_clue [0..<5], 0)"
    by (rule reduce_clues_short) simp
  have res: "fst (getCategory (sample_env 5) ''Math'' 7 0)
       = Inr (Some \<lparr>title = ''Math'', clues = map project (map sample_clue [0..<5])\<rparr>)"
    by (simp only: getCategory_accepted [OF src five] short fst_conv)
  let ?c = "\<lparr>title = ''Math'', clues = map project (map sample_clue [0..<5])\<rparr>"
  have "clues ?c ! 4 \<in> set (clues ?c)"
    by (rule nth_mem) simp
  with getCategory_projects_question_and_answer [OF src res, THEN conjunct1]
  have fresh: "showing (clues ?c ! 4) = None \<and> revealState_of (clues ?c ! 4) = Hidden"
    by blast
  from fresh have "showing (clues ?c ! 4) = None" ..
  moreover from fresh have "revealState_of (clues ?c ! 4) = Hidden" ..
  ultimately show ?thesis
    using src res by (intro conjI)
qed

text \<open>
  C10. The loop that reduces the clue list ends for every list: it is the loop body run
  exactly \<open>length data - 5\<close> times; before each of those runs the list has more than 5
  elements, each run makes it shorter by exactly one, and the loop ends with exactly 5
  elements (with the list as it was, when it had at most 5).
\<close>

theorem reduce_clues_terminates:
  "reduce_clues rnd k data = (loop_body rnd ^^ (length data - 5)) (data, k)
   \<and> (\<forall>m < length data - 5.
        5 < length (fst ((loop_body rnd ^^ m) (data, k)))
        \<and> length (fst ((loop_body rnd ^^ Suc m) (data, k))) + 1
            = length (fst ((loop_body rnd ^^ m) (data, k))))
   \<and> (5 \<le> length data \<longrightarrow> length (fst (reduce_clues rnd k data)) = 5)
   \<and> (length data \<le> 5 \<longrightarrow> reduce_clues rnd k data = (data, k))"
proof -
  have steps: "5 < length (fst ((loop_body rnd ^^ m) (data, k)))
        \<and> length (fst ((loop_body rnd ^^ Suc m) (data, k))) + 1
            = length (fst ((loop_body rnd ^^ m) (data, k)))" if m: "m < length data - 5" for m
  proof -
    have "length (fst ((loop_body rnd ^^ m) (data, k))) = length data - m"
      using m by (intro funpow_loop_body_length) simp
    moreover have "length (fst ((loop_body rnd ^^ Suc m) (data, k))) = length data - Suc m"
      using m by (intro funpow_loop_body_length) simp
    ultimately show ?thesis
      using m by arith
  qed
  then show ?thesis
    using reduce_clues_funpow [of rnd k data] length_reduce_clues [of data rnd k]
      reduce_clues_short [of data rnd k]
    by blast
qed

theorem reduce_clues_terminates_witness:
  "(0::nat) < length [1, 2, 3, 4, 5, 6, 7 :: nat] - 5
   \<and> reduce_clues (\<lambda>k. half) 0 [1, 2, 3, 4, 5, 6, 7 :: nat] = ([1, 2, 3, 6, 7], 2)
   \<and> length (fst ((loop_body (\<lambda>k. half) ^^ Suc 0) ([1, 2, 3, 4, 5, 6, 7 :: nat], 0))) + 1
       = length (fst ((loop_body (\<lambda>k. half) ^^ 0) ([1, 2, 3, 4, 5, 6, 7 :: nat], 0)))"
  using reduce_clues_terminates [of "\<lambda>k. half" 0 "[1, 2, 3, 4, 5, 6, 7 :: nat]"]
  by (simp add: reduce_clues.simps loop_body_def random_index_half splice1_def)

section \<open>Facts about setupAndStart\<close>




lemma setup_loop_past_end:
  "length (categories s) < 6 \<Longrightarrow> \<not> i < length categoryResponse \<Longrightarrow>
   setup_loop e categoryResponse i s = (Some TypeError, s)"
  by (simp add: setup_loop.simps)

lemma setup_loop_step:
  "length (categories s) < 6 \<Longrightarrow> i < length categoryResponse \<Longrightarrow>
   setup_loop e categoryResponse i s =
     (case getCategory e (ce_title (categoryResponse ! i)) (ce_id (categoryResponse ! i))
             (random_calls s) of
        (Inl err, k) \<Rightarrow> (Some err, s\<lparr>random_calls := k\<rparr>)
      | (Inr newCategory, k) \<Rightarrow>
          setup_loop e categoryResponse (Suc i)
            (case newCategory of
               None \<Rightarrow> s\<lparr>random_calls := k\<rparr>
             | Some c \<Rightarrow> s\<lparr>categories := categories s @ [c], random_calls := k\<rparr>))"
  by (subst setup_loop.simps) simp



lemma setup_loop_all_rejected:
  assumes "length (categories s) < 6"
    and "\<forall>j<length categoryResponse.
           \<exists>data. get_clues e (ce_id (categoryResponse ! j)) = Some data \<and> length data < 5"
  shows "setup_loop e categoryResponse i s = (Some TypeError, s)"
proof (induction "length categoryResponse - i" arbitrary: i)
  case 0
  then have "\<not> i < length categoryResponse"
    by simp
  with assms(1) show ?case
    by (rule setup_loop_past_end)
next
  case (Suc n)
  then have i: "i < length categoryResponse"
    by simp
  with assms(2) obtain data
    where "get_clues e (ce_id (categoryResponse ! i)) = Some data" and "length data < 5"
    by blast
  then have "getCategory e (ce_title (categoryResponse ! i)) (ce_id (categoryResponse ! i))
               (random_calls s) = (Inr None, random_calls s)"
    by (rule getCategory_rejected)
  then have "setup_loop e categoryResponse i s = setup_loop e categoryResponse (Suc i) s"
    using assms(1) i by (simp add: setup_loop_step)
  moreover have "n = length categoryResponse - Suc i"
    using Suc.hyps(2) by simp
  ultimately show ?case
    using Suc.hyps(1) by simp
qed




lemma sample_candidates:
  "getCategoryIds (sample_env n) 18 k
     = (Inr (map (\<lambda>i. \<lparr>ce_id = int i, ce_title = ''T''\<rparr>) [0..<18]), Suc k)"
  by (simp add: getCategoryIds_def sample_env_def await_def)






section \<open>Properties of setupAndStart and the start button\<close>



text \<open>
  C5. The run of \<^verbatim>\<open>setupAndStart\<close> on a source that answers with 18 candidates of 3
  clues each: all 18 are rejected, the loop goes on to read \<^verbatim>\<open>categoryResponse[18]\<close>,
  past the end of the list, and a \<open>TypeError\<close> is thrown, not an
  \<open>InsufficientCategoriesError\<close>; the click on the start button ends the same way, with
  the page left in its loading view.
\<close>

theorem setupAndStart_candidates_exhausted:
  "getCategoryIds (sample_env 3) 18 0
     = (Inr (map (\<lambda>i. \<lparr>ce_id = int i, ce_title = ''T''\<rparr>) [0..<18]), 1)
   \<and> setupAndStart (sample_env 3) (showLoadingView page_loaded)
       = (Some TypeError, (showLoadingView page_loaded)\<lparr>random_calls := 1\<rparr>)
   \<and> start_click (sample_env 3) page_loaded
       = (Some TypeError, (showLoadingView page_loaded)\<lparr>random_calls := 1\<rparr>)"
proof -
  let ?resp = "map (\<lambda>i. \<lparr>ce_id = int i, ce_title = ''T''\<rparr>) [0..<18]"
  let ?s = "(showLoadingView page_loaded)\<lparr>random_calls := 1\<rparr>"
  have less: "length (categories ?s) < 6"
    by (simp add: showLoadingView_def)
  have all: "\<forall>j<length ?resp.
           \<exists>data. get_clues (sample_env 3) (ce_id (?resp ! j)) = Some data \<and> length data < 5"
    by (simp add: sample_env_def)
  have loop: "setup_loop (sample_env 3) ?resp 0 ?s = (Some TypeError, ?s)"
    using less all by (rule setup_loop_all_rejected)
  have calls: "random_calls (showLoadingView page_loaded) = 0"
    by (simp add: showLoadingView_def page_loaded_def)
  have ids: "getCategoryIds (sample_env 3) 18 0 = (Inr ?resp, 1)"
    by (simp add: sample_candidates)
  have run: "setupAndStart (sample_env 3) (showLoadingView page_loaded) = (Some TypeError, ?s)"
    using loop by (simp add: setupAndStart_def calls ids)
  have "start_click (sample_env 3) page_loaded = (Some TypeError, ?s)"
    by (simp add: start_click_def run)
  with ids run show ?thesis
    by (intro conjI)
qed




section \<open>Facts about handleClick\<close>

lemma of_char_digit_char: "d < 10 \<Longrightarrow> (of_char (digit_char d) :: nat) = 48 + d"
  by (simp add: digit_char_def)

lemma is_digit_digit_char: "d < 10 \<Longrightarrow> is_digit (digit_char d)"
  by (simp add: is_digit_def of_char_digit_char)

lemma digit_val_digit_char: "d < 10 \<Longrightarrow> digit_val (digit_char d) = d"
  by (simp add: digit_val_def of_char_digit_char)

lemma digit_char_zero: "d < 10 \<Longrightarrow> digit_char d = CHR ''0'' \<longleftrightarrow> d = 0"
proof
  assume d: "d < 10" and "digit_char d = CHR ''0''"
  then have "(of_char (digit_char d) :: nat) = of_char (CHR ''0'')"
    by simp
  with d show "d = 0"
    by (simp add: of_char_digit_char)
next
  assume "d = 0"
  then show "digit_char d = CHR ''0''"
    by (simp add: digit_char_def char_of_eq_iff)
qed

lemma host_property_names_no_minus:
  "name \<in> set host_property_names \<Longrightarrow> CHR ''-'' \<notin> set name"
  by (auto simp: host_property_names_def)

lemma not_is_digit_minus: "\<not> is_digit (CHR ''-'')"
  by (simp add: is_digit_def)

lemma string_of_nat_small: "n < 10 \<Longrightarrow> string_of_nat n = [digit_char n]"
  by (simp add: string_of_nat.simps)

lemma string_of_nat_large:
  "\<not> n < 10 \<Longrightarrow> string_of_nat n = string_of_nat (n div 10) @ [digit_char (n mod 10)]"
  by (subst string_of_nat.simps) simp

lemma string_of_nat_nonempty: "string_of_nat n \<noteq> []"
  by (cases "n < 10") (simp_all add: string_of_nat_small string_of_nat_large)

lemma string_of_nat_digits: "list_all is_digit (string_of_nat n)"
proof (induction n rule: string_of_nat.induct)
  case (1 n)
  show ?case
  proof (cases "n < 10")
    case True
    then show ?thesis
      by (simp add: string_of_nat_small is_digit_digit_char)
  next
    case False
    with "1.IH" show ?thesis
      by (simp add: string_of_nat_large is_digit_digit_char)
  qed
qed

lemma string_of_nat_length: "\<not> n < 10 \<Longrightarrow> 2 \<le> length (string_of_nat n)"
proof -
  assume "\<not> n < 10"
  then have "string_of_nat n = string_of_nat (n div 10) @ [digit_char (n mod 10)]"
    by (rule string_of_nat_large)
  moreover have "0 < length (string_of_nat (n div 10))"
    using string_of_nat_nonempty by blast
  ultimately show ?thesis
    by (simp add: Suc_le_eq)
qed

lemma string_of_nat_hd: "hd (string_of_nat n) = CHR ''0'' \<longleftrightarrow> n = 0"
proof (induction n rule: string_of_nat.induct)
  case (1 n)
  show ?case
  proof (cases "n < 10")
    case True
    then show ?thesis
      by (simp add: string_of_nat_small digit_char_zero)
  next
    case False
    then have "hd (string_of_nat n) = hd (string_of_nat (n div 10))"
      by (simp add: string_of_nat_large string_of_nat_nonempty)
    with "1.IH" False show ?thesis
      by simp
  qed
qed

lemma string_of_nat_value:
  "foldl (\<lambda>a c. 10 * a + digit_val c) 0 (string_of_nat n) = n"
proof (induction n rule: string_of_nat.induct)
  case (1 n)
  show ?case
  proof (cases "n < 10")
    case True
    then show ?thesis
      by (simp add: string_of_nat_small digit_val_digit_char)
  next
    case False
    with "1.IH" show ?thesis
      by (simp add: string_of_nat_large digit_val_digit_char)
  qed
qed

lemma array_index_string_of_nat: "array_index (string_of_nat n) = Some n"
proof -
  have "string_of_nat n = ''0'' \<or> hd (string_of_nat n) \<noteq> CHR ''0''"
  proof (cases "n = 0")
    case True
    then show ?thesis
      by (simp add: string_of_nat_small digit_char_def char_of_eq_iff)
  next
    case False
    then show ?thesis
      by (simp add: string_of_nat_hd)
  qed
  then show ?thesis
    unfolding array_index_def
    using string_of_nat_nonempty [of n] string_of_nat_digits [of n] string_of_nat_value [of n]
    by simp
qed

lemma js_get_string_of_nat:
  "js_get xs (string_of_nat n) = (if n < length xs then Element n (xs ! n) else Undefined)"
  by (simp add: js_get_def array_index_string_of_nat)

lemma js_get_single_digit:
  assumes "is_digit ch"
  shows "js_get xs [ch] \<noteq> HostProperty"
proof -
  have "array_index [ch] \<noteq> None"
    using assms by (auto simp: array_index_def)
  then show ?thesis
    by (auto simp: js_get_def split: option.splits)
qed

lemma js_get_with_minus:
  assumes "list_all is_digit pre"
  shows "js_get xs (pre @ CHR ''-'' # post) = Undefined"
proof -
  let ?key = "pre @ CHR ''-'' # post"
  have "\<not> list_all is_digit ?key"
    by (simp add: not_is_digit_minus)
  then have none: "array_index ?key = None"
    unfolding array_index_def by (simp only: if_False simp_thms)
  have "?key \<notin> set host_property_names"
    using host_property_names_no_minus [of ?key] by auto
  with none show ?thesis
    by (simp add: js_get_def)
qed

lemma cell_id_small:
  "c < 10 \<Longrightarrow> take 1 (cell_id c k) = string_of_nat c \<and> drop 2 (cell_id c k) = string_of_nat k"
  by (simp add: cell_id_def string_of_nat_small)

lemma cell_id_large:
  assumes "\<not> c < 10"
  shows "\<exists>ch pre. is_digit ch \<and> list_all is_digit pre \<and> take 1 (cell_id c k) = [ch]
           \<and> drop 2 (cell_id c k) = pre @ CHR ''-'' # string_of_nat k"
proof -
  from string_of_nat_length [OF assms] obtain ch ch' rest
    where digits: "string_of_nat c = ch # ch' # rest"
    by (cases "string_of_nat c"; cases "tl (string_of_nat c)") auto
  with string_of_nat_digits [of c] have "is_digit ch" and "list_all is_digit rest"
    by simp_all
  moreover have "take 1 (cell_id c k) = [ch]"
    by (simp add: cell_id_def digits)
  moreover have "drop 2 (cell_id c k) = rest @ CHR ''-'' # string_of_nat k"
    by (simp add: cell_id_def digits)
  ultimately show ?thesis
    by blast
qed

lemma handleClick_keys:
  assumes "take 1 (target_id tgt) = cat" and "drop 2 (target_id tgt) = clu"
  shows "handleClick cats tgt =
     (case js_get cats cat of
        Undefined \<Rightarrow> Throws TypeError
      | HostProperty \<Rightarrow> HostDependent
      | Element i c \<Rightarrow>
          (case js_get (clues c) clu of
             Undefined \<Rightarrow> Throws TypeError
           | HostProperty \<Rightarrow> HostDependent
           | Element j clue \<Rightarrow>
               if truthy (showing clue) then
                 (if showing clue = Some ''question'' then
                    Returns (set_clue cats i j (clue\<lparr>showing := Some ''answer''\<rparr>),
                             tgt\<lparr>innerHTML := replace_backslash (answer clue),
                                 fontSize := ''1.5vh''\<rparr>)
                  else Returns (cats, tgt))
               else
                 Returns (set_clue cats i j (clue\<lparr>showing := Some ''question''\<rparr>),
                          tgt\<lparr>innerHTML := question clue, fontSize := ''1vh'',
                              color := ''white'', webkit_text_stroke := ''0''\<rparr>)))"
  using assms unfolding handleClick_def Let_def by (simp only:)

lemma length_set_clue: "length (set_clue cats c k x) = length cats"
  by (simp add: set_clue_def)

lemma set_clue_lengths:
  "c < length cats \<Longrightarrow> length (clues (set_clue cats c k x ! c)) = length (clues (cats ! c))"
  by (simp add: set_clue_def)

lemma set_clue_nth:
  "c < length cats \<Longrightarrow> k < length (clues (cats ! c)) \<Longrightarrow>
   clues (set_clue cats c k x ! c) ! k = x"
  by (simp add: set_clue_def)

lemma set_clue_again:
  "c < length cats \<Longrightarrow> set_clue (set_clue cats c k x) c k y = set_clue cats c k y"
  by (simp add: set_clue_def)

lemma handleClick_addressed:
  assumes "c < length cats" and "k < length (clues (cats ! c))" and "c < 10"
    and "target_id tgt = cell_id c k"
  shows "handleClick cats tgt =
     (if truthy (showing (clues (cats ! c) ! k)) then
        (if showing (clues (cats ! c) ! k) = Some ''question'' then
           Returns (set_clue cats c k ((clues (cats ! c) ! k)\<lparr>showing := Some ''answer''\<rparr>),
                    tgt\<lparr>innerHTML := replace_backslash (answer (clues (cats ! c) ! k)),
                        fontSize := ''1.5vh''\<rparr>)
         else Returns (cats, tgt))
      else
        Returns (set_clue cats c k ((clues (cats ! c) ! k)\<lparr>showing := Some ''question''\<rparr>),
                 tgt\<lparr>innerHTML := question (clues (cats ! c) ! k), fontSize := ''1vh'',
                     color := ''white'', webkit_text_stroke := ''0''\<rparr>))"
proof -
  from cell_id_small [OF assms(3), of k] assms(4)
  have keys: "take 1 (target_id tgt) = string_of_nat c" "drop 2 (target_id tgt) = string_of_nat k"
    by simp_all
  show ?thesis
    using assms(1,2) by (simp add: handleClick_keys [OF keys] js_get_string_of_nat)
qed

lemma handleClick_monotone:
  assumes "c < length cats" and "k < length (clues (cats ! c))" and "c < 10"
    and "target_id tgt = cell_id c k"
    and "handleClick cats tgt = Returns (cats', tgt')"
  shows "rank (revealState_of (clues (cats ! c) ! k))
           \<le> rank (revealState_of (clues (cats' ! c) ! k))"
proof -
  let ?cl = "clues (cats ! c) ! k"
  note run = assms(5) [unfolded handleClick_addressed [OF assms(1-4)]]
  show ?thesis
  proof (cases "truthy (showing ?cl)")
    case False
    then have "revealState_of ?cl = Hidden"
      by (simp add: revealState_of_def)
    then show ?thesis
      by simp
  next
    case True
    show ?thesis
    proof (cases "showing ?cl = Some ''question''")
      case False
      with True run have "cats' = cats"
        by simp
      then show ?thesis
        by simp
    next
      case True
      with run have "cats' = set_clue cats c k (?cl\<lparr>showing := Some ''answer''\<rparr>)"
        by (simp add: truthy_def)
      then have "revealState_of (clues (cats' ! c) ! k) = Answer"
        using assms(1,2) by (simp add: set_clue_nth revealState_of_def truthy_def)
      then show ?thesis
        by (cases "revealState_of ?cl") simp_all
    qed
  qed
qed

lemma clicks_stay:
  assumes "handleClick cats tgt = Returns (cats, tgt)"
  shows "clicks n (cats, tgt) = Returns (cats, tgt)"
  using assms by (induction n) simp_all

lemma clicks_add: "clicks m st = Returns st' \<Longrightarrow> clicks (n + m) st = clicks n st'"
  by (induction n) simp_all

lemma sample_board_shape:
  "length sample_board = 6" "0 < length sample_board"
  "length (clues (sample_board ! 0)) = 5"
  by (simp_all add: sample_board_def)


lemma remove1_at_most_one:
  "length (filter (\<lambda>y. y = x) xs) \<le> 1 \<Longrightarrow> remove1 x xs = filter (\<lambda>y. y \<noteq> x) xs"
proof (induction xs)
  case Nil
  show ?case by simp
next
  case (Cons a xs)
  show ?case
  proof (cases "a = x")
    case True
    with Cons.prems have "filter (\<lambda>y. y = x) xs = []"
      by simp
    then have "\<forall>y\<in>set xs. y \<noteq> x"
      by (simp add: filter_empty_conv)
    then have "filter (\<lambda>y. y \<noteq> x) xs = xs"
      by (simp add: filter_id_conv)
    with True show ?thesis
      by simp
  next
    case False
    with Cons show ?thesis
      by simp
  qed
qed

lemma set_clue_plain:
  "set_clue cats c k x = cats[c := (cats ! c)\<lparr>clues := (clues (cats ! c))[k := x]\<rparr>]"
  by (simp add: set_clue_def)

section \<open>Properties of handleClick\<close>

text \<open>
  C2, as the claim states it, fails: for a clue not yet clicked whose answer is
  \<^verbatim>\<open>a\b\<close>, the second click shows \<^verbatim>\<open>ab\<close>, which is not the answer text.
\<close>

theorem handleClick_reveal_sequence_counterexample:
  "revealState_of (clues (slash_board ! 0) ! 0) = Hidden
   \<and> answer (clues (slash_board ! 0) ! 0) = [CHR ''a'', CHR 0x5C, CHR ''b'']
   \<and> clicks 2 (slash_board, new_cell 0 0)
       = Returns (set_clue slash_board 0 0 (slash_clue\<lparr>showing := Some ''answer''\<rparr>),
                  (new_cell 0 0)\<lparr>innerHTML := ''ab'', fontSize := ''1.5vh'', color := ''white'',
                                webkit_text_stroke := ''0''\<rparr>)
   \<and> ''ab'' \<noteq> answer (clues (slash_board ! 0) ! 0)"
proof -
  let ?b1 = "set_clue slash_board 0 0 (slash_clue\<lparr>showing := Some ''question''\<rparr>)"
  let ?t1 = "(new_cell 0 0)\<lparr>innerHTML := ''q'', fontSize := ''1vh'', color := ''white'',
                            webkit_text_stroke := ''0''\<rparr>"
  have c: "0 < length slash_board"
    by (simp add: slash_board_def length_set_clue sample_board_shape)
  have k: "0 < length (clues (slash_board ! 0))"
    by (simp add: slash_board_def set_clue_lengths sample_board_shape)
  have small: "(0::nat) < 10"
    by simp
  have cell: "target_id (new_cell 0 0) = cell_id 0 0"
    by (simp add: new_cell_def)
  have cl: "clues (slash_board ! 0) ! 0 = slash_clue"
    by (simp add: slash_board_def set_clue_nth sample_board_shape)
  have first: "handleClick slash_board (new_cell 0 0) = Returns (?b1, ?t1)"
    unfolding handleClick_addressed [OF c k small cell] cl
    by (simp add: slash_clue_def truthy_def)
  have c1: "0 < length ?b1"
    using c by (simp add: length_set_clue)
  have k1: "0 < length (clues (?b1 ! 0))"
    using c k by (simp add: set_clue_lengths)
  have cell1: "target_id ?t1 = cell_id 0 0"
    by (simp add: new_cell_def)
  have cl1: "clues (?b1 ! 0) ! 0 = slash_clue\<lparr>showing := Some ''question''\<rparr>"
    using c k by (simp add: set_clue_nth)
  have again: "set_clue ?b1 0 0 (slash_clue\<lparr>showing := Some ''answer''\<rparr>)
                 = set_clue slash_board 0 0 (slash_clue\<lparr>showing := Some ''answer''\<rparr>)"
    using c by (rule set_clue_again)
  have second: "handleClick ?b1 ?t1
       = Returns (set_clue slash_board 0 0 (slash_clue\<lparr>showing := Some ''answer''\<rparr>),
                  (new_cell 0 0)\<lparr>innerHTML := ''ab'', fontSize := ''1.5vh'', color := ''white'',
                                webkit_text_stroke := ''0''\<rparr>)"
    unfolding handleClick_addressed [OF c1 k1 small cell1] cl1 again [symmetric]
    by (simp add: slash_clue_def truthy_def replace_backslash_def backslash_def)
  have two: "clicks 2 (slash_board, new_cell 0 0)
       = Returns (set_clue slash_board 0 0 (slash_clue\<lparr>showing := Some ''answer''\<rparr>),
                  (new_cell 0 0)\<lparr>innerHTML := ''ab'', fontSize := ''1.5vh'', color := ''white'',
                                webkit_text_stroke := ''0''\<rparr>)"
    using first second by (simp add: numeral_2_eq_2)
  have hidden: "revealState_of (clues (slash_board ! 0) ! 0) = Hidden"
    by (simp add: cl slash_clue_def revealState_of_def truthy_def)
  have ans: "answer (clues (slash_board ! 0) ! 0) = [CHR ''a'', CHR 0x5C, CHR ''b'']"
    by (simp add: cl slash_clue_def)
  have differ: "''ab'' \<noteq> answer (clues (slash_board ! 0) ! 0)"
    by (simp add: ans)
  from hidden ans two differ show ?thesis
    by (intro conjI)
qed

text \<open>
  C2, amended. Clicks in a row on the cell of a clue \<open>k\<close> of a category \<open>c\<close> (a category
  index below 10 is a single digit, which is what \<^verbatim>\<open>handleClick\<close> reads off the identifier;
  a board has 6 categories). From the state Hidden (\<^verbatim>\<open>showing\<close> absent or empty) the first
  call shows the question in the default style (\<^verbatim>\<open>1vh\<close>, white, no stroke) and moves the
  clue to Question; the second call moves the clue to Answer and shows a text in the
  larger style (\<^verbatim>\<open>1.5vh\<close>), which for an answer with at most one backslash is the answer
  without its backslash (the answer itself when it holds none); the third call changes
  nothing, and neither does any later one. No other clue and nothing else of the cell
  changes. From whatever state, a call never moves the clue to a lower state.
\<close>

theorem handleClick_reveal_sequence:
  assumes "c < length cats" and "k < length (clues (cats ! c))" and "c < 10"
    and "target_id tgt = cell_id c k"
    and "cl = clues (cats ! c) ! k"
    and "cats1 = cats[c := (cats ! c)\<lparr>clues := (clues (cats ! c))
                                  [k := cl\<lparr>showing := Some ''question''\<rparr>]\<rparr>]"
    and "tgt1 = tgt\<lparr>innerHTML := question cl, fontSize := ''1vh'', color := ''white'',
                     webkit_text_stroke := ''0''\<rparr>"
    and "cats2 = cats[c := (cats ! c)\<lparr>clues := (clues (cats ! c))
                                  [k := cl\<lparr>showing := Some ''answer''\<rparr>]\<rparr>]"
  shows "(showing cl = None \<or> showing cl = Some [] \<longrightarrow>
            revealState_of cl = Hidden
          \<and> handleClick cats tgt = Returns (cats1, tgt1)
          \<and> revealState_of (clues (cats1 ! c) ! k) = Question
          \<and> clicks 1 (cats, tgt) = Returns (cats1, tgt1)
          \<and> (\<exists>shown.
                handleClick cats1 tgt1
                  = Returns (cats2, tgt1\<lparr>innerHTML := shown, fontSize := ''1.5vh''\<rparr>)
              \<and> (length (filter (\<lambda>ch. ch = CHR 0x5C) (answer cl)) \<le> 1 \<longrightarrow>
                    shown = filter (\<lambda>ch. ch \<noteq> CHR 0x5C) (answer cl))
              \<and> revealState_of (clues (cats2 ! c) ! k) = Answer
              \<and> handleClick cats2 (tgt1\<lparr>innerHTML := shown, fontSize := ''1.5vh''\<rparr>)
                  = Returns (cats2, tgt1\<lparr>innerHTML := shown, fontSize := ''1.5vh''\<rparr>)
              \<and> (\<forall>n\<ge>2. clicks n (cats, tgt)
                    = Returns (cats2, tgt1\<lparr>innerHTML := shown, fontSize := ''1.5vh''\<rparr>))))
       \<and> (\<forall>cats' tgt'. handleClick cats tgt = Returns (cats', tgt') \<longrightarrow>
             rank (revealState_of cl) \<le> rank (revealState_of (clues (cats' ! c) ! k)))"
proof -
  let ?shown = "replace_backslash (answer cl)"
  let ?tgt2 = "tgt1\<lparr>innerHTML := ?shown, fontSize := ''1.5vh''\<rparr>"
  have b1: "cats1 = set_clue cats c k (cl\<lparr>showing := Some ''question''\<rparr>)"
    by (simp only: assms(6) set_clue_plain)
  have b2: "cats2 = set_clue cats c k (cl\<lparr>showing := Some ''answer''\<rparr>)"
    by (simp only: assms(8) set_clue_plain)
  have mono: "\<forall>cats' tgt'. handleClick cats tgt = Returns (cats', tgt') \<longrightarrow>
             rank (revealState_of cl) \<le> rank (revealState_of (clues (cats' ! c) ! k))"
    using handleClick_monotone [OF assms(1-4)] assms(5) by blast
  have seq: "revealState_of cl = Hidden
          \<and> handleClick cats tgt = Returns (cats1, tgt1)
          \<and> revealState_of (clues (cats1 ! c) ! k) = Question
          \<and> clicks 1 (cats, tgt) = Returns (cats1, tgt1)
          \<and> (\<exists>shown.
                handleClick cats1 tgt1
                  = Returns (cats2, tgt1\<lparr>innerHTML := shown, fontSize := ''1.5vh''\<rparr>)
              \<and> (length (filter (\<lambda>ch. ch = CHR 0x5C) (answer cl)) \<le> 1 \<longrightarrow>
                    shown = filter (\<lambda>ch. ch \<noteq> CHR 0x5C) (answer cl))
              \<and> revealState_of (clues (cats2 ! c) ! k) = Answer
              \<and> handleClick cats2 (tgt1\<lparr>innerHTML := shown, fontSize := ''1.5vh''\<rparr>)
                  = Returns (cats2, tgt1\<lparr>innerHTML := shown, fontSize := ''1.5vh''\<rparr>)
              \<and> (\<forall>n\<ge>2. clicks n (cats, tgt)
                    = Returns (cats2, tgt1\<lparr>innerHTML := shown, fontSize := ''1.5vh''\<rparr>)))"
    if fresh: "showing cl = None \<or> showing cl = Some []"
  proof -
    from fresh have falsy: "\<not> truthy (showing (clues (cats ! c) ! k))"
      unfolding assms(5) by (auto simp: truthy_def)
    then have hidden: "revealState_of cl = Hidden"
      by (simp add: assms(5) revealState_of_def)
    have first: "handleClick cats tgt = Returns (cats1, tgt1)"
      using falsy by (simp add: handleClick_addressed [OF assms(1-4)] assms(5) b1 assms(7))
    have in1: "c < length cats1" "k < length (clues (cats1 ! c))"
      using assms(1,2) by (simp_all add: b1 length_set_clue set_clue_lengths)
    have id1: "target_id tgt1 = cell_id c k"
      using assms(4) by (simp add: assms(7))
    have cl1: "clues (cats1 ! c) ! k = cl\<lparr>showing := Some ''question''\<rparr>"
      using assms(1,2) by (simp add: b1 set_clue_nth)
    have q: "revealState_of (clues (cats1 ! c) ! k) = Question"
      by (simp add: cl1 revealState_of_def truthy_def)
    have "handleClick cats1 tgt1 =
            Returns (set_clue cats1 c k (cl\<lparr>showing := Some ''answer''\<rparr>), ?tgt2)"
      by (simp add: handleClick_addressed [OF in1 assms(3) id1] cl1 truthy_def)
    moreover have "set_clue cats1 c k (cl\<lparr>showing := Some ''answer''\<rparr>) = cats2"
      unfolding b1 b2 using assms(1) by (rule set_clue_again)
    ultimately have second: "handleClick cats1 tgt1 = Returns (cats2, ?tgt2)"
      by simp
    have in2: "c < length cats2" "k < length (clues (cats2 ! c))"
      using assms(1,2) by (simp_all add: b2 length_set_clue set_clue_lengths)
    have id2: "target_id ?tgt2 = cell_id c k"
      using id1 by simp
    have cl2: "clues (cats2 ! c) ! k = cl\<lparr>showing := Some ''answer''\<rparr>"
      using assms(1,2) by (simp add: b2 set_clue_nth)
    have a: "revealState_of (clues (cats2 ! c) ! k) = Answer"
      by (simp add: cl2 revealState_of_def truthy_def)
    have third: "handleClick cats2 ?tgt2 = Returns (cats2, ?tgt2)"
      by (simp add: handleClick_addressed [OF in2 assms(3) id2] cl2 truthy_def)
    have plain: "length (filter (\<lambda>ch. ch = CHR 0x5C) (answer cl)) \<le> 1 \<longrightarrow>
                    ?shown = filter (\<lambda>ch. ch \<noteq> CHR 0x5C) (answer cl)"
      by (simp add: replace_backslash_def backslash_def remove1_at_most_one)
    have one: "clicks 1 (cats, tgt) = Returns (cats1, tgt1)"
      using first by simp
    have two: "clicks 2 (cats, tgt) = Returns (cats2, ?tgt2)"
      using first second by (simp add: numeral_2_eq_2)
    have later: "\<forall>n\<ge>2. clicks n (cats, tgt) = Returns (cats2, ?tgt2)"
    proof (intro allI impI)
      fix n :: nat
      assume "2 \<le> n"
      then obtain m where n: "n = m + 2"
        using le_Suc_ex by (metis add.commute)
      show "clicks n (cats, tgt) = Returns (cats2, ?tgt2)"
        unfolding n clicks_add [OF two] by (rule clicks_stay [OF third])
    qed
    from second plain a third later
    have "\<exists>shown.
                handleClick cats1 tgt1
                  = Returns (cats2, tgt1\<lparr>innerHTML := shown, fontSize := ''1.5vh''\<rparr>)
              \<and> (length (filter (\<lambda>ch. ch = CHR 0x5C) (answer cl)) \<le> 1 \<longrightarrow>
                    shown = filter (\<lambda>ch. ch \<noteq> CHR 0x5C) (answer cl))
              \<and> revealState_of (clues (cats2 ! c) ! k) = Answer
              \<and> handleClick cats2 (tgt1\<lparr>innerHTML := shown, fontSize := ''1.5vh''\<rparr>)
                  = Returns (cats2, tgt1\<lparr>innerHTML := shown, fontSize := ''1.5vh''\<rparr>)
              \<and> (\<forall>n\<ge>2. clicks n (cats, tgt)
                    = Returns (cats2, tgt1\<lparr>innerHTML := shown, fontSize := ''1.5vh''\<rparr>))"
      by (intro exI [of _ ?shown] conjI)
    with hidden first q one show ?thesis
      by (intro conjI)
  qed
  have "showing cl = None \<or> showing cl = Some [] \<longrightarrow>
            revealState_of cl = Hidden
          \<and> handleClick cats tgt = Returns (cats1, tgt1)
          \<and> revealState_of (clues (cats1 ! c) ! k) = Question
          \<and> clicks 1 (cats, tgt) = Returns (cats1, tgt1)
          \<and> (\<exists>shown.
                handleClick cats1 tgt1
                  = Returns (cats2, tgt1\<lparr>innerHTML := shown, fontSize := ''1.5vh''\<rparr>)
              \<and> (length (filter (\<lambda>ch. ch = CHR 0x5C) (answer cl)) \<le> 1 \<longrightarrow>
                    shown = filter (\<lambda>ch. ch \<noteq> CHR 0x5C) (answer cl))
              \<and> revealState_of (clues (cats2 ! c) ! k) = Answer
              \<and> handleClick cats2 (tgt1\<lparr>innerHTML := shown, fontSize := ''1.5vh''\<rparr>)
                  = Returns (cats2, tgt1\<lparr>innerHTML := shown, fontSize := ''1.5vh''\<rparr>)
              \<and> (\<forall>n\<ge>2. clicks n (cats, tgt)
                    = Returns (cats2, tgt1\<lparr>innerHTML := shown, fontSize := ''1.5vh''\<rparr>)))"
    by (rule impI) (rule seq)
  then show ?thesis
    using mono by (rule conjI)
qed

theorem handleClick_reveal_sequence_witness:
  "showing scenario_clue = None
   \<and> handleClick scenario_board (new_cell 0 0)
       = Returns (set_clue scenario_board 0 0 (scenario_clue\<lparr>showing := Some ''question''\<rparr>),
                  question_cell)
   \<and> handleClick (set_clue scenario_board 0 0 (scenario_clue\<lparr>showing := Some ''question''\<rparr>))
         question_cell
       = Returns (set_clue scenario_board 0 0 (scenario_clue\<lparr>showing := Some ''answer''\<rparr>),
                  answer_cell)
   \<and> handleClick (set_clue scenario_board 0 0 (scenario_clue\<lparr>showing := Some ''answer''\<rparr>))
         answer_cell
       = Returns (set_clue scenario_board 0 0 (scenario_clue\<lparr>showing := Some ''answer''\<rparr>),
                  answer_cell)
   \<and> clicks 5 (scenario_board, new_cell 0 0)
       = Returns (set_clue scenario_board 0 0 (scenario_clue\<lparr>showing := Some ''answer''\<rparr>),
                  answer_cell)"
proof -
  let ?b1 = "set_clue scenario_board 0 0 (scenario_clue\<lparr>showing := Some ''question''\<rparr>)"
  let ?b2 = "set_clue scenario_board 0 0 (scenario_clue\<lparr>showing := Some ''answer''\<rparr>)"
  have c: "0 < length scenario_board"
    by (simp add: scenario_board_def length_set_clue sample_board_shape)
  have k: "0 < length (clues (scenario_board ! 0))"
    by (simp add: scenario_board_def set_clue_lengths sample_board_shape)
  have small: "(0::nat) < 10"
    by simp
  have cell: "target_id (new_cell 0 0) = cell_id 0 0"
    by (simp add: new_cell_def)
  have cl: "scenario_clue = clues (scenario_board ! 0) ! 0"
    by (simp add: scenario_board_def set_clue_nth sample_board_shape)
  have b1: "?b1 = scenario_board[0 := (scenario_board ! 0)
                    \<lparr>clues := (clues (scenario_board ! 0))
                                [0 := scenario_clue\<lparr>showing := Some ''question''\<rparr>]\<rparr>]"
    by (rule set_clue_plain)
  have b2: "?b2 = scenario_board[0 := (scenario_board ! 0)
                    \<lparr>clues := (clues (scenario_board ! 0))
                                [0 := scenario_clue\<lparr>showing := Some ''answer''\<rparr>]\<rparr>]"
    by (rule set_clue_plain)
  have t1: "question_cell
              = (new_cell 0 0)\<lparr>innerHTML := question scenario_clue, fontSize := ''1vh'',
                               color := ''white'', webkit_text_stroke := ''0''\<rparr>"
    by (simp add: question_cell_def scenario_clue_def)
  have fresh: "showing scenario_clue = None"
    by (simp add: scenario_clue_def)
  have few: "length (filter (\<lambda>ch. ch = CHR 0x5C) (answer scenario_clue)) \<le> 1"
    by (simp add: scenario_clue_def)
  have stripped: "filter (\<lambda>ch. ch \<noteq> CHR 0x5C) (answer scenario_clue) = ''4''"
    by (simp add: scenario_clue_def)
  have later: "(2::nat) \<le> 5"
    by simp
  from handleClick_reveal_sequence [OF c k small cell cl b1 t1 b2] fresh
  have first: "handleClick scenario_board (new_cell 0 0) = Returns (?b1, question_cell)"
    and "\<exists>shown.
           handleClick ?b1 question_cell
             = Returns (?b2, question_cell\<lparr>innerHTML := shown, fontSize := ''1.5vh''\<rparr>)
         \<and> (length (filter (\<lambda>ch. ch = CHR 0x5C) (answer scenario_clue)) \<le> 1 \<longrightarrow>
               shown = filter (\<lambda>ch. ch \<noteq> CHR 0x5C) (answer scenario_clue))
         \<and> revealState_of (clues (?b2 ! 0) ! 0) = Answer
         \<and> handleClick ?b2 (question_cell\<lparr>innerHTML := shown, fontSize := ''1.5vh''\<rparr>)
             = Returns (?b2, question_cell\<lparr>innerHTML := shown, fontSize := ''1.5vh''\<rparr>)
         \<and> (\<forall>n\<ge>2. clicks n (scenario_board, new_cell 0 0)
               = Returns (?b2, question_cell\<lparr>innerHTML := shown, fontSize := ''1.5vh''\<rparr>))"
    by simp_all
  then obtain shown
    where second: "handleClick ?b1 question_cell
             = Returns (?b2, question_cell\<lparr>innerHTML := shown, fontSize := ''1.5vh''\<rparr>)"
      and shown: "length (filter (\<lambda>ch. ch = CHR 0x5C) (answer scenario_clue)) \<le> 1 \<longrightarrow>
               shown = filter (\<lambda>ch. ch \<noteq> CHR 0x5C) (answer scenario_clue)"
      and third: "handleClick ?b2 (question_cell\<lparr>innerHTML := shown, fontSize := ''1.5vh''\<rparr>)
             = Returns (?b2, question_cell\<lparr>innerHTML := shown, fontSize := ''1.5vh''\<rparr>)"
      and rest: "\<forall>n\<ge>2. clicks n (scenario_board, new_cell 0 0)
               = Returns (?b2, question_cell\<lparr>innerHTML := shown, fontSize := ''1.5vh''\<rparr>)"
    by blast
  from shown few stripped have "shown = ''4''"
    by simp
  then have cell2: "question_cell\<lparr>innerHTML := shown, fontSize := ''1.5vh''\<rparr> = answer_cell"
    by (simp add: answer_cell_def)
  from rest later have five: "clicks 5 (scenario_board, new_cell 0 0) = Returns (?b2, answer_cell)"
    unfolding cell2 by blast
  from fresh first second third five show ?thesis
    unfolding cell2 by (intro conjI)
qed

text \<open>
  C7. The call of \<^verbatim>\<open>handleClick\<close> on a clue in the state Question whose answer is
  \<^verbatim>\<open>a\b\c\<close>: the text shown is \<^verbatim>\<open>ab\c\<close>. Only the first backslash is removed; the
  second is still in the text.
\<close>

theorem handleClick_strips_first_backslash_only:
  "revealState_of (clues (escaped_board ! 0) ! 0) = Question
   \<and> answer (clues (escaped_board ! 0) ! 0) = ''a'' @ [backslash] @ ''b'' @ [backslash] @ ''c''
   \<and> handleClick escaped_board clicked_cell
       = Returns (set_clue escaped_board 0 0 (escaped_clue\<lparr>showing := Some ''answer''\<rparr>),
                  clicked_cell\<lparr>innerHTML := ''ab'' @ [backslash] @ ''c'',
                               fontSize := ''1.5vh''\<rparr>)
   \<and> backslash \<in> set (''ab'' @ [backslash] @ ''c'')"
proof -
  have c: "0 < length escaped_board"
    by (simp add: escaped_board_def length_set_clue sample_board_shape)
  have k: "0 < length (clues (escaped_board ! 0))"
    by (simp add: escaped_board_def set_clue_lengths sample_board_shape)
  have small: "(0::nat) < 10"
    by simp
  have cell: "target_id clicked_cell = cell_id 0 0"
    by (simp add: clicked_cell_def new_cell_def)
  have cl: "clues (escaped_board ! 0) ! 0 = escaped_clue"
    by (simp add: escaped_board_def set_clue_nth sample_board_shape)
  have state: "revealState_of escaped_clue = Question"
    by (simp add: revealState_of_def truthy_def escaped_clue_def)
  have ans: "answer escaped_clue = ''a'' @ [backslash] @ ''b'' @ [backslash] @ ''c''"
    by (simp add: escaped_clue_def)
  have stripped: "replace_backslash (answer escaped_clue) = ''ab'' @ [backslash] @ ''c''"
    by (simp add: replace_backslash_def escaped_clue_def backslash_def)
  have "handleClick escaped_board clicked_cell
       = Returns (set_clue escaped_board 0 0 (escaped_clue\<lparr>showing := Some ''answer''\<rparr>),
                  clicked_cell\<lparr>innerHTML := ''ab'' @ [backslash] @ ''c'',
                               fontSize := ''1.5vh''\<rparr>)"
    unfolding handleClick_addressed [OF c k small cell] cl stripped [symmetric]
    by (simp add: escaped_clue_def truthy_def)
  moreover have "backslash \<in> set (''ab'' @ [backslash] @ ''c'')"
    by simp
  ultimately show ?thesis
    using state ans by (simp only: cl simp_thms)
qed

text \<open>
  C9, as the claim states it, fails: on the sample board of 6 categories the cell
  identifier \<^verbatim>\<open>7-0\<close> addresses no clue, and \<^verbatim>\<open>handleClick\<close> throws a \<open>TypeError\<close>, not
  an \<open>IndexError\<close>.
\<close>

theorem handleClick_out_of_range_counterexample:
  "\<not> 7 < length sample_board
   \<and> handleClick sample_board (new_cell 7 0) = Throws TypeError
   \<and> handleClick sample_board (new_cell 7 0) \<noteq> Throws IndexError"
proof -
  have "take 1 (cell_id 7 0) = string_of_nat 7 \<and> drop 2 (cell_id 7 0) = string_of_nat 0"
    by (rule cell_id_small) simp
  then have keys: "take 1 (target_id (new_cell 7 0)) = string_of_nat 7"
    "drop 2 (target_id (new_cell 7 0)) = string_of_nat 0"
    by (simp_all add: new_cell_def)
  have "js_get sample_board (string_of_nat 7) = Undefined"
    by (simp add: js_get_string_of_nat sample_board_shape)
  then have "handleClick sample_board (new_cell 7 0) = Throws TypeError"
    by (simp add: handleClick_keys [OF keys])
  then show ?thesis
    by (simp add: sample_board_shape)
qed

text \<open>
  C9, amended. For every pair of a category index and a clue index that does not address
  a clue of the board, \<^verbatim>\<open>handleClick\<close> on the cell identifier of that pair throws a
  \<open>TypeError\<close>, and nothing else happens: the throw is at the read of the missing
  category or clue, before anything is written.
\<close>

theorem handleClick_out_of_range:
  assumes out: "\<not> (c < length cats \<and> k < length (clues (cats ! c)))"
    and cell: "target_id tgt = cell_id c k"
  shows "handleClick cats tgt = Throws TypeError"
proof (cases "c < 10")
  case True
  from cell_id_small [OF True, of k] cell
  have keys: "take 1 (target_id tgt) = string_of_nat c" "drop 2 (target_id tgt) = string_of_nat k"
    by simp_all
  show ?thesis
  proof (cases "c < length cats")
    case False
    then show ?thesis
      by (simp add: handleClick_keys [OF keys] js_get_string_of_nat)
  next
    case inside: True
    with out have "\<not> k < length (clues (cats ! c))"
      by simp
    with inside show ?thesis
      by (simp add: handleClick_keys [OF keys] js_get_string_of_nat)
  qed
next
  case False
  from cell_id_large [OF False, of k] cell obtain ch pre
    where ch: "is_digit ch" and pre: "list_all is_digit pre"
      and keys: "take 1 (target_id tgt) = [ch]"
                "drop 2 (target_id tgt) = pre @ CHR ''-'' # string_of_nat k"
    by auto
  have "js_get cats [ch] \<noteq> HostProperty"
    using ch by (rule js_get_single_digit)
  then show ?thesis
  proof (cases "js_get cats [ch]")
    case Undefined
    then show ?thesis
      by (simp add: handleClick_keys [OF keys])
  next
    case (Element i x)
    moreover have "js_get (clues x) (pre @ CHR ''-'' # string_of_nat k) = Undefined"
      using pre by (rule js_get_with_minus)
    ultimately show ?thesis
      by (simp add: handleClick_keys [OF keys])
  next
    case HostProperty
    with \<open>js_get cats [ch] \<noteq> HostProperty\<close> show ?thesis
      by simp
  qed
qed

theorem handleClick_out_of_range_witness:
  "\<not> 12 < length sample_board
   \<and> target_id (new_cell 12 5) = cell_id 12 5
   \<and> handleClick sample_board (new_cell 12 5) = Throws TypeError
   \<and> \<not> 5 < length (clues (sample_board ! 2))
   \<and> handleClick sample_board (new_cell 2 5) = Throws TypeError"
proof -
  have len: "\<not> 12 < length sample_board"
    by (simp add: sample_board_shape)
  then have out: "\<not> (12 < length sample_board \<and> 5 < length (clues (sample_board ! 12)))"
    by simp
  have cell: "target_id (new_cell 12 5) = cell_id 12 5"
    by (simp add: new_cell_def)
  have len': "\<not> 5 < length (clues (sample_board ! 2))"
    by (simp add: sample_board_def)
  then have out': "\<not> (2 < length sample_board \<and> 5 < length (clues (sample_board ! 2)))"
    by simp
  have cell': "target_id (new_cell 2 5) = cell_id 2 5"
    by (simp add: new_cell_def)
  from handleClick_out_of_range [OF out cell] handleClick_out_of_range [OF out' cell']
    len cell len'
  show ?thesis
    by (intro conjI)
qed

end
